theory Spec2Isabelle
  imports Complex_Main "HOL-Library.Word"
begin

section \<open>The Gateway: \<open>frontend/app/api/[...path]/route.ts\<close>\<close>

subsection \<open>Platform values the route handler works on\<close>

text \<open>
  A thrown JavaScript value is represented by what the code reads from it: its
  \<open>message\<close> property, \<open>None\<close> when the value has none.
\<close>

type_synonym js_error = "string option"

type_synonym byte = "8 word"

text \<open>
  A \<open>Headers\<close> object is an ordered list of name/value pairs; duplicates are kept in
  order and names are compared without regard to ASCII case. Values are opaque
  strings, stored as they are given.
\<close>

type_synonym headers = "(string \<times> string) list"

definition lower_char :: "char \<Rightarrow> char" where
  "lower_char c =
     (if 65 \<le> (of_char c :: nat) \<and> (of_char c :: nat) \<le> 90
      then char_of ((of_char c :: nat) + 32) else c)"

definition lower :: "string \<Rightarrow> string" where
  "lower s = map lower_char s"

text \<open>\<open>Array.prototype.join\<close>: the elements in order, the separator between neighbours.\<close>

fun js_join :: "string \<Rightarrow> string list \<Rightarrow> string" where
  "js_join sep [] = []"
| "js_join sep [x] = x"
| "js_join sep (x # y # ys) = x @ sep @ js_join sep (y # ys)"

definition named :: "string \<Rightarrow> string \<times> string \<Rightarrow> bool" where
  "named name h = (lower (fst h) = lower name)"

text \<open>\<open>Headers.delete(name)\<close> removes every entry of that name.\<close>

definition headers_delete :: "string \<Rightarrow> headers \<Rightarrow> headers" where
  "headers_delete name hs = filter (\<lambda>h. \<not> named name h) hs"

text \<open>
  \<open>Headers.get(name)\<close> is \<open>null\<close> when no entry has that name, and otherwise the
  values of all entries of that name, in order, joined by a comma and a space.
\<close>

definition headers_get :: "string \<Rightarrow> headers \<Rightarrow> string option" where
  "headers_get name hs =
     (case filter (named name) hs of
        [] \<Rightarrow> None
      | vs \<Rightarrow> Some (js_join '', '' (map snd vs)))"

text \<open>
  \<open>Headers.set(name, value)\<close> overwrites the first entry of that name, removes the
  later ones, and appends a new entry when there is none.
\<close>

fun headers_set :: "string \<Rightarrow> string \<Rightarrow> headers \<Rightarrow> headers" where
  "headers_set name v [] = [(name, v)]"
| "headers_set name v (h # hs) =
     (if named name h then (fst h, v) # headers_delete name hs
      else h # headers_set name v hs)"

text \<open>
  \<open>URL.search\<close>: empty when the URL has no query or an empty one, otherwise a
  question mark followed by the query.
\<close>

record url =
  origin_and_path :: string
  query :: "string option"

definition url_search :: "url \<Rightarrow> string" where
  "url_search u =
     (case query u of
        None \<Rightarrow> []
      | Some q \<Rightarrow> if q = [] then [] else ''?'' @ q)"

text \<open>
  The inbound request: \<open>body_bytes\<close> is what \<open>req.arrayBuffer()\<close> yields, the bytes of
  the body (none for a request without a body).
\<close>

record request =
  req_method :: string
  req_url :: url
  req_headers :: headers
  body_bytes :: "byte list"

text \<open>
  The route context: \<open>ctx.params\<close> may resolve to \<open>undefined\<close>, and its \<open>path\<close> may
  be missing.
\<close>

record route_params =
  path :: "string list option"

type_synonym route_ctx = "route_params option"

text \<open>The argument of the outbound \<open>fetch\<close>; \<open>out_body = None\<close> is \<open>body: undefined\<close>.\<close>

record outbound =
  out_target :: string
  out_method :: string
  out_headers :: headers
  out_body :: "byte list option"

text \<open>A response: the upstream one read by the handler, and the one it returns.\<close>

record response =
  resp_status :: nat
  resp_headers :: headers
  resp_body :: "byte list option"

text \<open>
  The network is a parameter: \<open>fetch\<close> maps the outbound request to the upstream
  response, or rejects.
\<close>

type_synonym fetcher = "outbound \<Rightarrow> js_error + response"

subsection \<open>The handler\<close>

definition getPathParts :: "route_ctx \<Rightarrow> string list" where
  "getPathParts ctx =
     (case ctx of
        None \<Rightarrow> []
      | Some p \<Rightarrow> (case path p of None \<Rightarrow> [] | Some parts \<Rightarrow> parts))"

definition proxy_target :: "request \<Rightarrow> route_ctx \<Rightarrow> string" where
  "proxy_target req ctx =
     ''http://api:8000/'' @ js_join ''/'' (getPathParts ctx) @ url_search (req_url req)"

definition proxy_headers :: "headers \<Rightarrow> headers" where
  "proxy_headers inbound =
     (let hs = headers_delete ''connection'' (headers_delete ''host'' inbound)
      in headers_set ''accept''
           (case headers_get ''accept'' hs of
              None \<Rightarrow> ''application/json''
            | Some v \<Rightarrow> v) hs)"

definition proxy_body :: "request \<Rightarrow> byte list option" where
  "proxy_body req =
     (if req_method req \<noteq> ''GET'' \<and> req_method req \<noteq> ''HEAD''
      then Some (body_bytes req) else None)"

definition proxy_request :: "request \<Rightarrow> route_ctx \<Rightarrow> outbound" where
  "proxy_request req ctx =
     \<lparr> out_target = proxy_target req ctx,
       out_method = req_method req,
       out_headers = proxy_headers (req_headers req),
       out_body = proxy_body req \<rparr>"

text \<open>
  The statuses for which a response has no body: a \<open>Response\<close> of such a status
  cannot be built around a body, and \<open>fetch\<close> delivers such a response with
  \<open>body\<close> \<open>null\<close>.
\<close>

definition null_body_status :: "nat \<Rightarrow> bool" where
  "null_body_status st = (st \<in> {101, 103, 204, 205, 304})"

text \<open>
  \<open>new Response(body, {status, headers})\<close>: a \<open>RangeError\<close> for a status outside
  200 to 599, a \<open>TypeError\<close> for a body together with a null-body status, and
  otherwise the response of that body, status and headers. The messages are the
  engine's.
\<close>

definition new_Response :: "byte list option \<Rightarrow> nat \<Rightarrow> headers \<Rightarrow> js_error + response" where
  "new_Response body st hs =
     (if st < 200 \<or> 599 < st then
        Inl (Some ''init.status must be in the range of 200 to 599, inclusive.'')
      else if body \<noteq> None \<and> null_body_status st then
        Inl (Some ''Response with null body status cannot have body'')
      else Inr \<lparr> resp_status = st, resp_headers = hs, resp_body = body \<rparr>)"

text \<open>The upstream responses that a \<open>Response\<close> can be built from.\<close>

definition relayable :: "response \<Rightarrow> bool" where
  "relayable upstream =
     (200 \<le> resp_status upstream \<and> resp_status upstream \<le> 599 \<and>
      (null_body_status (resp_status upstream) \<longrightarrow> resp_body upstream = None))"

text \<open>
  \<open>proxy\<close>: a rejected \<open>fetch\<close> is rethrown; otherwise the response is built from
  the upstream's body, its status and a copy of its headers, and what the
  constructor throws is thrown by the handler.
\<close>

definition proxy :: "fetcher \<Rightarrow> request \<Rightarrow> route_ctx \<Rightarrow> js_error + response" where
  "proxy fetch req ctx =
     (case fetch (proxy_request req ctx) of
        Inl e \<Rightarrow> Inl e
      | Inr upstream \<Rightarrow>
          new_Response (resp_body upstream) (resp_status upstream) (resp_headers upstream))"

type_synonym handler = "fetcher \<Rightarrow> request \<Rightarrow> route_ctx \<Rightarrow> js_error + response"

definition GET :: handler where "GET = proxy"
definition POST :: handler where "POST = proxy"
definition PUT :: handler where "PUT = proxy"
definition DELETE :: handler where "DELETE = proxy"
definition PATCH :: handler where "PATCH = proxy"

text \<open>The module's exports, by name: the five functions above and nothing else.\<close>

definition route_exports :: "string \<Rightarrow> handler option" where
  "route_exports name =
     (if name = ''GET'' then Some GET
      else if name = ''POST'' then Some POST
      else if name = ''PUT'' then Some PUT
      else if name = ''DELETE'' then Some DELETE
      else if name = ''PATCH'' then Some PATCH
      else None)"

text \<open>
  The routing layer in front of the module: a request is given to the export named
  after its method; a HEAD request is given to the exported GET when the module
  exports no HEAD; a request of any other method is refused.
\<close>

definition route_handler :: "string \<Rightarrow> handler option" where
  "route_handler m =
     (case route_exports m of
        Some h \<Rightarrow> Some h
      | None \<Rightarrow> if m = ''HEAD'' then route_exports ''GET'' else None)"

text \<open>The headers that the handler deletes or sets; it touches no other.\<close>

definition rewritten_header :: "string \<times> string \<Rightarrow> bool" where
  "rewritten_header h = (named ''host'' h \<or> named ''connection'' h \<or> named ''accept'' h)"

text \<open>
  What the target is meant to be, written without the array's \<open>join\<close>: the first
  segment, then every further segment behind a slash.
\<close>

fun joined_path :: "string list \<Rightarrow> string" where
  "joined_path [] = []"
| "joined_path (p # ps) = p @ concat (map (\<lambda>q. ''/'' @ q) ps)"

section \<open>The resource orchestrator: \<open>frontend/app/(app)/analysis/page.tsx\<close>\<close>

subsection \<open>Platform values\<close>

text \<open>
  A parsed JSON value. A number is represented by its value; an object by its own
  properties, one entry per key.
\<close>

datatype json =
    JNull
  | JBool bool
  | JNum rat
  | JStr string
  | JArr "json list"
  | JObj "(string \<times> json) list"

text \<open>JavaScript truthiness of a parsed JSON value.\<close>

fun truthy :: "json \<Rightarrow> bool" where
  "truthy JNull = False"
| "truthy (JBool b) = b"
| "truthy (JNum n) = (n \<noteq> 0)"
| "truthy (JStr s) = (s \<noteq> [])"
| "truthy (JArr xs) = True"
| "truthy (JObj kvs) = True"

text \<open>
  Reading the property \<open>name\<close> of a parsed JSON value: a \<open>TypeError\<close> on \<open>null\<close>, the
  entry of an object when it has one, and \<open>undefined\<close> (\<open>None\<close>) in every other case.
  The names read in this program (\<open>items\<close>, \<open>comparison_cnt\<close>) are not properties of
  strings, arrays, numbers or booleans.
\<close>

text \<open>The message of the \<open>TypeError\<close> is the engine's; only its presence matters here.\<close>

fun get_prop :: "string \<Rightarrow> json \<Rightarrow> js_error + json option" where
  "get_prop name JNull = Inl (Some (''Cannot read properties of null (reading '' @ name @ '')''))"
| "get_prop name (JObj kvs) = Inr (map_of kvs name)"
| "get_prop name v = Inr None"

text \<open>
  The response of a browser \<open>fetch\<close>, by what the page reads from it: \<open>text_result\<close> is
  the outcome of \<open>res.text()\<close> (\<open>None\<close> when it rejects) and \<open>json_result\<close> the outcome
  of \<open>res.json()\<close> (\<open>Inl\<close> the error it throws on a body that is not JSON).
\<close>

record fetch_response =
  status :: nat
  statusText :: string
  text_result :: "string option"
  json_result :: "js_error + json"

definition ok :: "fetch_response \<Rightarrow> bool" where
  "ok res = (200 \<le> status res \<and> status res \<le> 299)"

datatype fetch_outcome = Rejected js_error | Responded fetch_response

text \<open>A number in a template literal: its decimal digits.\<close>

definition digit_char :: "nat \<Rightarrow> char" where
  "digit_char d = char_of (48 + d)"

fun show_nat :: "nat \<Rightarrow> string" where
  "show_nat n =
     (if n < 10 then [digit_char n] else show_nat (n div 10) @ [digit_char (n mod 10)])"

declare show_nat.simps [simp del]

text \<open>
  \<open>String.prototype.trim\<close>: white space and line terminators are removed at both
  ends. Of these, the code units below 256 are tab, line feed, vertical tab, form
  feed, carriage return, space and no-break space.
\<close>

definition is_ws :: "char \<Rightarrow> bool" where
  "is_ws c = ((of_char c :: nat) \<in> {9, 10, 11, 12, 13, 32, 160})"

definition trim_start :: "string \<Rightarrow> string" where
  "trim_start s = dropWhile is_ws s"

definition trim_end :: "string \<Rightarrow> string" where
  "trim_end s = rev (dropWhile is_ws (rev s))"

definition trim :: "string \<Rightarrow> string" where
  "trim s = trim_end (trim_start s)"

text \<open>\<open>e?.message || fallback\<close>: the fallback replaces a missing or empty message.\<close>

definition message_or :: "js_error \<Rightarrow> string \<Rightarrow> string" where
  "message_or e fallback =
     (case e of None \<Rightarrow> fallback | Some m \<Rightarrow> if m = [] then fallback else m)"

text \<open>\<open>apiFetch(path)\<close> requests the path below \<open>/api\<close>.\<close>

definition apiFetch_url :: "string \<Rightarrow> string" where
  "apiFetch_url p = ''/api'' @ p"

subsection \<open>Loading one block\<close>

text \<open>
  \<open>loadBlock\<close>, as a function of how its \<open>apiFetch\<close> settles: \<open>Inl\<close> is the error it
  throws, \<open>Inr\<close> the value it returns.
\<close>

definition text_or_empty :: "fetch_response \<Rightarrow> string" where
  "text_or_empty res = (case text_result res of None \<Rightarrow> [] | Some t \<Rightarrow> t)"

definition loadBlock :: "fetch_outcome \<Rightarrow> js_error + json" where
  "loadBlock outcome =
     (case outcome of
        Rejected e \<Rightarrow> Inl e
      | Responded res \<Rightarrow>
          if \<not> ok res then
            (let msg = text_or_empty res
             in Inl (Some (trim (show_nat (status res) @ '' '' @ statusText res @ '' '' @ msg))))
          else
            (case json_result res of
               Inl e \<Rightarrow> Inl e
             | Inr data \<Rightarrow>
                 (case get_prop ''items'' data of
                    Inl e \<Rightarrow> Inl e
                  | Inr None \<Rightarrow> Inr (JArr [])
                  | Inr (Some v) \<Rightarrow> Inr (if truthy v then v else JArr []))))"

record block_state =
  loading :: bool
  items :: json
  error :: "string option"

definition pending_block :: block_state where
  "pending_block = \<lparr> loading = True, items = JArr [], error = None \<rparr>"

text \<open>The block state that \<open>wrap\<close> writes once \<open>fn()\<close> has settled.\<close>

definition wrap_result :: "fetch_outcome \<Rightarrow> block_state" where
  "wrap_result outcome =
     (case loadBlock outcome of
        Inr its \<Rightarrow> \<lparr> loading = False, items = its, error = None \<rparr>
      | Inl e \<Rightarrow> \<lparr> loading = False, items = JArr [], error = Some (message_or e ''Error'') \<rparr>)"

text \<open>The three phases of a resource, read from its block state.\<close>

datatype phase = Pending | Loaded | Failed

definition phase_of :: "block_state \<Rightarrow> phase" where
  "phase_of b = (if loading b then Pending else if error b = None then Loaded else Failed)"

subsection \<open>A run of the effect\<close>

text \<open>
  The state of one run: the token \<open>alive\<close>, the flag \<open>loadingAll\<close>, one block state
  per resource, which \<open>wrap\<close> calls still wait for their \<open>fn()\<close>, and whether the
  code behind \<open>Promise.all\<close> has run.
\<close>

record run_state =
  alive :: bool
  loadingAll :: bool
  blocks :: "block_state list"
  waiting :: "bool list"
  requests :: "string list"
  finished :: bool

text \<open>The resources of the page, in the order of the array given to \<open>Promise.all\<close>.\<close>

definition analysis_paths :: "string list" where
  "analysis_paths =
     [''/analysis/large-executables?limit=200'',
      ''/analysis/exes-in-appdata?limit=200'',
      ''/analysis/scripts-in-temp?limit=200'',
      ''/analysis/multi-use-hashes?limit=200'',
      ''/analysis/system-process-outside-system32?limit=200'',
      ''/analysis/high-entropy-suspicious-paths?limit=200'',
      ''/analysis/ifeo-debuggers-suspicious?limit=200'',
      ''/analysis/high-entropy-recent-pe?limit=200'']"

text \<open>
  The synchronous part of \<open>run\<close>, up to the \<open>await\<close> of \<open>Promise.all\<close>: the flag is set,
  and every \<open>wrap\<close> sets its block to loading and issues its request.
\<close>

definition start :: "string list \<Rightarrow> run_state" where
  "start paths =
     \<lparr> alive = True,
       loadingAll = True,
       blocks = map (\<lambda>p. pending_block) paths,
       waiting = map (\<lambda>p. True) paths,
       requests = map apiFetch_url paths,
       finished = False \<rparr>"

text \<open>
  What happens afterwards, one event at a time: the \<open>fn()\<close> of resource \<open>i\<close> settles
  and its \<open>wrap\<close> continues; all \<open>wrap\<close> calls are through and \<open>run\<close> continues behind
  \<open>Promise.all\<close>; the effect's cleanup runs. An event that cannot happen in the state
  (a second settlement of the same request, a continuation while a \<open>wrap\<close> still
  waits) changes nothing.
\<close>

datatype event = Settle nat fetch_outcome | AllSettled | Cleanup

fun step :: "event \<Rightarrow> run_state \<Rightarrow> run_state" where
  "step Cleanup s = s\<lparr>alive := False\<rparr>"
| "step (Settle i outcome) s =
     (if i < length (waiting s) \<and> waiting s ! i then
        (let s' = s\<lparr>waiting := (waiting s)[i := False]\<rparr>
         in if \<not> alive s then s'
            else s'\<lparr>blocks := (blocks s)[i := wrap_result outcome]\<rparr>)
      else s)"
| "step AllSettled s =
     (if list_all Not (waiting s) \<and> \<not> finished s then
        (let s' = s\<lparr>finished := True\<rparr>
         in if \<not> alive s then s' else s'\<lparr>loadingAll := False\<rparr>)
      else s)"

definition exec :: "event list \<Rightarrow> run_state \<Rightarrow> run_state" where
  "exec es s = foldl (\<lambda>s e. step e s) s es"

text \<open>
  Two properties of a list of events: resource \<open>i\<close> settles in it, and neither the
  cleanup nor the continuation behind \<open>Promise.all\<close> occurs in it.
\<close>

fun is_settle :: "nat \<Rightarrow> event \<Rightarrow> bool" where
  "is_settle i (Settle j outcome) = (j = i)"
| "is_settle i e = False"

definition settles :: "nat \<Rightarrow> event list \<Rightarrow> bool" where
  "settles i es = list_ex (is_settle i) es"

definition undisturbed :: "event list \<Rightarrow> bool" where
  "undisturbed es = list_all (\<lambda>e. e \<noteq> Cleanup \<and> e \<noteq> AllSettled) es"

text \<open>
  The invariant of a run: while the token is true, a \<open>wrap\<close> that no longer waits has
  written a settled block; and the flag is false only when no \<open>wrap\<close> waits and every
  block is settled.
\<close>

definition run_inv :: "run_state \<Rightarrow> bool" where
  "run_inv s \<longleftrightarrow>
     length (blocks s) = length (waiting s) \<and>
     (alive s \<longrightarrow> (\<forall>i < length (waiting s). \<not> waiting s ! i \<longrightarrow> \<not> loading (blocks s ! i))) \<and>
     (\<not> loadingAll s \<longrightarrow>
        (\<forall>i < length (waiting s). \<not> waiting s ! i \<and> \<not> loading (blocks s ! i)))"

section \<open>The overview page: \<open>frontend/app/(app)/page.tsx\<close>\<close>

text \<open>
  A JavaScript number, as far as \<open>Number(...)\<close> can produce one; the conversion
  itself is a parameter of the model.
\<close>

datatype js_number = Finite rat | NaN | PosInfinity | NegInfinity

text \<open>
  Where \<open>load\<close> is suspended: at \<open>Promise.all\<close> of the two requests, at
  \<open>kpiRes.json()\<close> (the second response kept for later), at \<open>suspRes.json()\<close>, or
  not at all any more.
\<close>

datatype load_phase =
    AwaitFetches
  | AwaitKpiJson fetch_response fetch_response
  | AwaitSuspJson fetch_response
  | LoadDone

record overview_state =
  cancelled :: bool
  ov_loading :: bool
  err :: string
  kpis :: json
  ov_items :: json
  comparisonCnt :: js_number
  load_phase :: load_phase

text \<open>The synchronous part of \<open>load\<close>, on the initial values of the component.\<close>

definition load_start :: overview_state where
  "load_start =
     \<lparr> cancelled = False, ov_loading = True, err = [], kpis = JNull,
       ov_items = JArr [], comparisonCnt = Finite 0, load_phase = AwaitFetches \<rparr>"

text \<open>The \<open>finally\<close> block, and the \<open>catch\<close> block followed by it.\<close>

definition finally_load :: "overview_state \<Rightarrow> overview_state" where
  "finally_load s =
     (if \<not> cancelled s then s\<lparr>ov_loading := False\<rparr> else s)\<lparr>load_phase := LoadDone\<rparr>"

definition catch_load :: "js_error \<Rightarrow> overview_state \<Rightarrow> overview_state" where
  "catch_load e s =
     finally_load
       (if \<not> cancelled s then s\<lparr>err := message_or e ''Failed to load overview''\<rparr> else s)"

text \<open>The second half of the guarded block: the suspicious-files response.\<close>

definition after_kpi :: "fetch_response \<Rightarrow> overview_state \<Rightarrow> overview_state" where
  "after_kpi suspRes s =
     (if ok suspRes then s\<lparr>load_phase := AwaitSuspJson suspRes\<rparr>
      else finally_load (s\<lparr>ov_items := JArr [], comparisonCnt := Finite 0\<rparr>))"

datatype load_event =
    FetchesSettle "js_error + fetch_response \<times> fetch_response"
  | JsonSettle
  | LoadCleanup

fun load_step :: "(json \<Rightarrow> js_number) \<Rightarrow> load_event \<Rightarrow> overview_state \<Rightarrow> overview_state" where
  "load_step Number LoadCleanup s = s\<lparr>cancelled := True\<rparr>"
| "load_step Number (FetchesSettle r) s =
     (case load_phase s of
        AwaitFetches \<Rightarrow>
          (case r of
             Inl e \<Rightarrow> catch_load e s
           | Inr (kpiRes, suspRes) \<Rightarrow>
               if \<not> cancelled s then
                 (if \<not> ok kpiRes then
                    after_kpi suspRes
                      (s\<lparr>err := ''KPI request failed ('' @ show_nat (status kpiRes) @ '')''\<rparr>)
                  else s\<lparr>load_phase := AwaitKpiJson kpiRes suspRes\<rparr>)
               else finally_load s)
      | _ \<Rightarrow> s)"
| "load_step Number JsonSettle s =
     (case load_phase s of
        AwaitKpiJson kpiRes suspRes \<Rightarrow>
          (case json_result kpiRes of
             Inl e \<Rightarrow> catch_load e s
           | Inr v \<Rightarrow> after_kpi suspRes (s\<lparr>kpis := v\<rparr>))
      | AwaitSuspJson suspRes \<Rightarrow>
          (case json_result suspRes of
             Inl e \<Rightarrow> catch_load e s
           | Inr data \<Rightarrow>
               (case get_prop ''items'' data of
                  Inl e \<Rightarrow> catch_load e s
                | Inr its \<Rightarrow>
                    (let s' = s\<lparr>ov_items := (case its of Some (JArr xs) \<Rightarrow> JArr xs | _ \<Rightarrow> JArr [])\<rparr>
                     in case get_prop ''comparison_cnt'' data of
                          Inl e \<Rightarrow> catch_load e s'
                        | Inr cnt \<Rightarrow>
                            finally_load
                              (s'\<lparr>comparisonCnt :=
                                    Number (case cnt of
                                              None \<Rightarrow> JNum 0
                                            | Some JNull \<Rightarrow> JNum 0
                                            | Some v \<Rightarrow> v)\<rparr>))))
      | _ \<Rightarrow> s)"

definition load_exec ::
  "(json \<Rightarrow> js_number) \<Rightarrow> load_event list \<Rightarrow> overview_state \<Rightarrow> overview_state" where
  "load_exec Number es s = foldl (\<lambda>s e. load_step Number e s) s es"

text \<open>The event in which the two requests settle.\<close>

fun fetches_event :: "load_event \<Rightarrow> bool" where
  "fetches_event (FetchesSettle r) = True"
| "fetches_event e = False"

text \<open>What the component renders from.\<close>

definition shown :: "overview_state \<Rightarrow> bool \<times> string \<times> json \<times> json \<times> js_number" where
  "shown s = (ov_loading s, err s, kpis s, ov_items s, comparisonCnt s)"

text \<open>
  A cancelled \<open>load\<close> that still waits for its requests, or is through, shows what it
  showed before, whatever happens.
\<close>

definition load_quiet :: "overview_state \<Rightarrow> bool" where
  "load_quiet s \<longleftrightarrow> cancelled s \<and> (load_phase s = AwaitFetches \<or> load_phase s = LoadDone)"

section \<open>A run of two resources\<close>

text \<open>
  Two responses to try the definitions on: \<open>/x\<close> answers 200 with one record under
  \<open>items\<close>, \<open>/y\<close> answers 500 with a body that is not JSON.
\<close>

definition response_x :: fetch_response where
  \<open>response_x =
     \<lparr> status = 200, statusText = ''OK'',
       text_result = Some ''{"items":[{"n":1}]}'',
       json_result = Inr (JObj [(''items'', JArr [JObj [(''n'', JNum 1)]])]) \<rparr>\<close>

definition response_y :: fetch_response where
  "response_y =
     \<lparr> status = 500, statusText = ''Internal Server Error'',
       text_result = Some ''boom'',
       json_result = Inl (Some ''Unexpected token b in JSON at position 0'') \<rparr>"

text \<open>A success response whose body is the empty JSON object.\<close>

definition response_empty_object :: fetch_response where
  "response_empty_object =
     \<lparr> status = 200, statusText = ''OK'',
       text_result = Some ''{}'',
       json_result = Inr (JObj []) \<rparr>"

section \<open>Properties of the Gateway\<close>

subsection \<open>Header operations\<close>

lemma lower_consts:
  "lower ''host'' = ''host''" "lower ''connection'' = ''connection''"
  "lower ''accept'' = ''accept''"
  by (simp_all add: lower_def lower_char_def)

lemma lower_names:
  "lower ''Host'' = ''host''" "lower ''Cookie'' = ''cookie''"
  "lower ''Connection'' = ''connection''" "lower ''X-Trace'' = ''x-trace''"
  "lower ''Accept'' = ''accept''"
  "lower ''host'' = ''host''" "lower ''connection'' = ''connection''"
  "lower ''accept'' = ''accept''"
  by code_simp+

lemma named_fst: "named name (fst h, v) = named name h"
  by (simp add: named_def)

lemma filter_named_delete_same: "filter (named name) (headers_delete name hs) = []"
  by (induction hs) (auto simp: headers_delete_def)

lemma filter_named_delete_other:
  "lower name \<noteq> lower name' \<Longrightarrow>
   filter (named name) (headers_delete name' hs) = filter (named name) hs"
  by (induction hs) (auto simp: headers_delete_def named_def)

lemma headers_get_delete_same: "headers_get name (headers_delete name hs) = None"
  by (simp add: headers_get_def filter_named_delete_same)

lemma headers_get_delete_other:
  "lower name \<noteq> lower name' \<Longrightarrow>
   headers_get name (headers_delete name' hs) = headers_get name hs"
  by (simp add: headers_get_def filter_named_delete_other)

lemma filter_named_set_same:
  "\<exists>n. filter (named name) (headers_set name v hs) = [(n, v)]"
proof (induction hs)
  case Nil
  show ?case by (simp add: named_def)
next
  case (Cons h hs)
  then show ?case by (auto simp: named_fst filter_named_delete_same)
qed

lemma headers_get_set_same: "headers_get name (headers_set name v hs) = Some v"
  using filter_named_set_same [of name v hs] by (auto simp: headers_get_def)

lemma filter_named_set_other:
  "lower name' \<noteq> lower name \<Longrightarrow>
   filter (named name') (headers_set name v hs) = filter (named name') hs"
  by (induction hs) (auto simp: named_def filter_named_delete_other)

lemma headers_get_set_other:
  "lower name' \<noteq> lower name \<Longrightarrow>
   headers_get name' (headers_set name v hs) = headers_get name' hs"
  by (simp add: headers_get_def filter_named_set_other)

lemma filter_rest_delete:
  "filter (\<lambda>h. \<not> rewritten h) (headers_delete name hs) =
   filter (\<lambda>h. \<not> rewritten h \<and> \<not> named name h) hs"
  by (simp add: headers_delete_def conj_commute)

lemma filter_rest_set:
  "(\<And>h. named name h \<Longrightarrow> rewritten h) \<Longrightarrow>
   filter (\<lambda>h. \<not> rewritten h) (headers_set name v hs) = filter (\<lambda>h. \<not> rewritten h) hs"
proof (induction hs)
  case Nil
  then show ?case by (auto simp: named_def)
next
  case (Cons h hs)
  have "filter (\<lambda>h. \<not> rewritten h) (headers_delete name hs) = filter (\<lambda>h. \<not> rewritten h) hs"
    unfolding filter_rest_delete using Cons.prems by (auto intro: filter_cong)
  with Cons show ?case by (auto simp: named_fst)
qed

lemma proxy_headers_host: "headers_get ''host'' (proxy_headers hs) = None"
  by (simp add: proxy_headers_def Let_def headers_get_set_other headers_get_delete_other
      headers_get_delete_same lower_consts)

lemma proxy_headers_connection: "headers_get ''connection'' (proxy_headers hs) = None"
  by (simp add: proxy_headers_def Let_def headers_get_set_other headers_get_delete_same
      lower_consts)

lemma proxy_headers_accept:
  "headers_get ''accept'' (proxy_headers hs) =
     Some (case headers_get ''accept'' hs of None \<Rightarrow> ''application/json'' | Some v \<Rightarrow> v)"
  by (simp add: proxy_headers_def Let_def headers_get_set_same headers_get_delete_other
      lower_consts)

lemma proxy_headers_rest:
  "filter (\<lambda>h. \<not> rewritten_header h) (proxy_headers hs) = filter (\<lambda>h. \<not> rewritten_header h) hs"
proof -
  have "filter (\<lambda>h. \<not> rewritten_header h) (proxy_headers hs) =
        filter (\<lambda>h. \<not> rewritten_header h)
          (headers_delete ''connection'' (headers_delete ''host'' hs))"
    unfolding proxy_headers_def Let_def
    by (rule filter_rest_set) (simp add: rewritten_header_def)
  also have "\<dots> = filter (\<lambda>h. \<not> rewritten_header h) hs"
    by (auto simp: headers_delete_def rewritten_header_def intro: filter_cong)
  finally show ?thesis .
qed

subsection \<open>The outbound request\<close>

lemma js_join_slash: "js_join ''/'' parts = joined_path parts"
  by (induction "''/''" parts rule: js_join.induct) simp_all

text \<open>
  C3. The outbound request has no \<open>host\<close> and no \<open>connection\<close> header; its \<open>accept\<close>
  header is the inbound accept value when there is one and \<open>application/json\<close>
  otherwise; every other inbound header is forwarded unchanged, in the same order.
\<close>

theorem proxy_headers_forwarded:
  "headers_get ''host'' (out_headers (proxy_request req ctx)) = None \<and>
   headers_get ''connection'' (out_headers (proxy_request req ctx)) = None \<and>
   headers_get ''accept'' (out_headers (proxy_request req ctx)) =
     Some (case headers_get ''accept'' (req_headers req) of
             None \<Rightarrow> ''application/json''
           | Some v \<Rightarrow> v) \<and>
   filter (\<lambda>h. \<not> rewritten_header h) (out_headers (proxy_request req ctx)) =
     filter (\<lambda>h. \<not> rewritten_header h) (req_headers req)"
  by (simp add: proxy_request_def proxy_headers_host proxy_headers_connection
      proxy_headers_accept proxy_headers_rest)

theorem proxy_headers_forwarded_witness:
  "out_headers (proxy_request
     \<lparr> req_method = ''GET'',
       req_url = \<lparr> origin_and_path = ''http://dash/api/scans'', query = None \<rparr>,
       req_headers = [(''Host'', ''dash''), (''Cookie'', ''sid=1''),
                      (''Connection'', ''keep-alive''), (''X-Trace'', ''7'')],
       body_bytes = [] \<rparr> None) =
     [(''Cookie'', ''sid=1''), (''X-Trace'', ''7''), (''accept'', ''application/json'')] \<and>
   headers_get ''accept'' (out_headers (proxy_request
     \<lparr> req_method = ''GET'',
       req_url = \<lparr> origin_and_path = ''http://dash/api/scans'', query = None \<rparr>,
       req_headers = [(''Host'', ''dash''), (''Accept'', ''text/csv'')],
       body_bytes = [] \<rparr> None)) = Some ''text/csv''"
  using proxy_headers_forwarded
    [of "\<lparr> req_method = ''GET'',
       req_url = \<lparr> origin_and_path = ''http://dash/api/scans'', query = None \<rparr>,
       req_headers = [(''Host'', ''dash''), (''Accept'', ''text/csv'')],
       body_bytes = [] \<rparr>" None]
    proxy_headers_forwarded
    [of "\<lparr> req_method = ''GET'',
       req_url = \<lparr> origin_and_path = ''http://dash/api/scans'', query = None \<rparr>,
       req_headers = [(''Host'', ''dash''), (''Cookie'', ''sid=1''),
                      (''Connection'', ''keep-alive''), (''X-Trace'', ''7'')],
       body_bytes = [] \<rparr>" None]
  by (simp add: proxy_request_def proxy_headers_def headers_delete_def headers_get_def
      named_def lower_names)

text \<open>
  C4. For GET and HEAD no body is attached to the outbound request; for every other
  method the outbound body is the inbound body, byte for byte.
\<close>

theorem proxy_body_roundtrip:
  "(req_method req = ''GET'' \<or> req_method req = ''HEAD''
      \<longrightarrow> out_body (proxy_request req ctx) = None) \<and>
   (req_method req \<noteq> ''GET'' \<and> req_method req \<noteq> ''HEAD''
      \<longrightarrow> out_body (proxy_request req ctx) = Some (body_bytes req))"
  by (simp add: proxy_request_def proxy_body_def)

theorem proxy_body_roundtrip_witness:
  "out_body (proxy_request
     \<lparr> req_method = ''HEAD'',
       req_url = \<lparr> origin_and_path = ''http://dash/api/scans'', query = None \<rparr>,
       req_headers = [], body_bytes = [] \<rparr> None) = None \<and>
   out_body (proxy_request
     \<lparr> req_method = ''POST'',
       req_url = \<lparr> origin_and_path = ''http://dash/api/auth/login'', query = None \<rparr>,
       req_headers = [], body_bytes = [0, 255, 10, 13, 128] \<rparr> None) =
     Some [0, 255, 10, 13, 128]"
  using proxy_body_roundtrip
    [of "\<lparr> req_method = ''HEAD'',
       req_url = \<lparr> origin_and_path = ''http://dash/api/scans'', query = None \<rparr>,
       req_headers = [], body_bytes = [] \<rparr>" None]
    proxy_body_roundtrip
    [of "\<lparr> req_method = ''POST'',
       req_url = \<lparr> origin_and_path = ''http://dash/api/auth/login'', query = None \<rparr>,
       req_headers = [], body_bytes = [0, 255, 10, 13, 128] \<rparr>" None]
  by simp

lemma new_Response_relayable:
  "relayable upstream \<Longrightarrow>
   new_Response (resp_body upstream) (resp_status upstream) (resp_headers upstream) = Inr upstream"
  by (auto simp: relayable_def new_Response_def)

lemma proxy_unfolded:
  "proxy fetch req ctx =
     (case fetch \<lparr> out_target = proxy_target req ctx, out_method = req_method req,
                   out_headers = proxy_headers (req_headers req), out_body = proxy_body req \<rparr> of
        Inl e \<Rightarrow> Inl e
      | Inr upstream \<Rightarrow>
          new_Response (resp_body upstream) (resp_status upstream) (resp_headers upstream))"
  by (simp add: proxy_def proxy_request_def)

text \<open>
  C5, as the code has it. When the upstream answers with a response that a
  \<open>Response\<close> can be built from (a status from 200 to 599, and no body when the status
  is a null-body status), the Gateway returns a response with the upstream's status
  code, whatever its class, and with the upstream's body and headers.
\<close>

theorem proxy_relays_status:
  assumes "fetch (proxy_request req ctx) = Inr upstream" and "relayable upstream"
  shows "\<exists>r. proxy fetch req ctx = Inr r \<and> resp_status r = resp_status upstream \<and>
             resp_body r = resp_body upstream \<and> resp_headers r = resp_headers upstream"
  using assms by (simp add: proxy_def new_Response_relayable)

theorem proxy_relays_status_witness:
  "relayable \<lparr> resp_status = 404, resp_headers = [], resp_body = Some [110, 111] \<rparr> \<and>
   relayable \<lparr> resp_status = 500, resp_headers = [], resp_body = Some [110, 111] \<rparr> \<and>
   proxy (\<lambda>out. Inr \<lparr> resp_status = (if out_method out = ''GET'' then 404 else 500),
                     resp_headers = [], resp_body = Some [110, 111] \<rparr>)
     \<lparr> req_method = ''GET'',
       req_url = \<lparr> origin_and_path = ''http://dash/api/nope'', query = None \<rparr>,
       req_headers = [], body_bytes = [] \<rparr> None =
     Inr \<lparr> resp_status = 404, resp_headers = [], resp_body = Some [110, 111] \<rparr> \<and>
   proxy (\<lambda>out. Inr \<lparr> resp_status = (if out_method out = ''GET'' then 404 else 500),
                     resp_headers = [], resp_body = Some [110, 111] \<rparr>)
     \<lparr> req_method = ''PUT'',
       req_url = \<lparr> origin_and_path = ''http://dash/api/nope'', query = None \<rparr>,
       req_headers = [], body_bytes = [] \<rparr> None =
     Inr \<lparr> resp_status = 500, resp_headers = [], resp_body = Some [110, 111] \<rparr>"
proof -
  have r404: "relayable \<lparr> resp_status = 404, resp_headers = [], resp_body = Some [110, 111] \<rparr>"
    and r500: "relayable \<lparr> resp_status = 500, resp_headers = [], resp_body = Some [110, 111] \<rparr>"
    by (simp_all add: relayable_def null_body_status_def)
  from proxy_relays_status
    [of "\<lambda>out. Inr \<lparr> resp_status = (if out_method out = ''GET'' then 404 else 500),
                     resp_headers = [], resp_body = Some [110, 111] \<rparr>"
        "\<lparr> req_method = ''GET'',
       req_url = \<lparr> origin_and_path = ''http://dash/api/nope'', query = None \<rparr>,
       req_headers = [], body_bytes = [] \<rparr>" None
        "\<lparr> resp_status = 404, resp_headers = [], resp_body = Some [110, 111] \<rparr>", OF _ r404]
  have get: "proxy (\<lambda>out. Inr \<lparr> resp_status = (if out_method out = ''GET'' then 404 else 500),
                     resp_headers = [], resp_body = Some [110, 111] \<rparr>)
     \<lparr> req_method = ''GET'',
       req_url = \<lparr> origin_and_path = ''http://dash/api/nope'', query = None \<rparr>,
       req_headers = [], body_bytes = [] \<rparr> None =
     Inr \<lparr> resp_status = 404, resp_headers = [], resp_body = Some [110, 111] \<rparr>"
    by (auto simp: proxy_request_def)
  from proxy_relays_status
    [of "\<lambda>out. Inr \<lparr> resp_status = (if out_method out = ''GET'' then 404 else 500),
                     resp_headers = [], resp_body = Some [110, 111] \<rparr>"
        "\<lparr> req_method = ''PUT'',
       req_url = \<lparr> origin_and_path = ''http://dash/api/nope'', query = None \<rparr>,
       req_headers = [], body_bytes = [] \<rparr>" None
        "\<lparr> resp_status = 500, resp_headers = [], resp_body = Some [110, 111] \<rparr>", OF _ r500]
  have put: "proxy (\<lambda>out. Inr \<lparr> resp_status = (if out_method out = ''GET'' then 404 else 500),
                     resp_headers = [], resp_body = Some [110, 111] \<rparr>)
     \<lparr> req_method = ''PUT'',
       req_url = \<lparr> origin_and_path = ''http://dash/api/nope'', query = None \<rparr>,
       req_headers = [], body_bytes = [] \<rparr> None =
     Inr \<lparr> resp_status = 500, resp_headers = [], resp_body = Some [110, 111] \<rparr>"
    by (auto simp: proxy_request_def)
  from r404 r500 get put show ?thesis by (intro conjI)
qed

text \<open>
  C5, as stated, fails for an upstream status that no \<open>Response\<close> can carry: when the
  upstream answers 600, the constructor throws and the handler returns no response.
\<close>

theorem proxy_status_600_throws:
  "proxy (\<lambda>out. Inr \<lparr> resp_status = 600, resp_headers = [], resp_body = Some [110, 111] \<rparr>)
     \<lparr> req_method = ''GET'',
       req_url = \<lparr> origin_and_path = ''http://dash/api/nope'', query = None \<rparr>,
       req_headers = [], body_bytes = [] \<rparr> None =
     Inl (Some ''init.status must be in the range of 200 to 599, inclusive.'')"
  by (simp add: proxy_def new_Response_def)

text \<open>
  C6. The upstream target is the fixed scheme and authority, a slash, the inbound
  path segments in their order, each as it was given and separated by slashes, and
  then the inbound query string.
\<close>

theorem proxy_target_verbatim:
  "out_target (proxy_request req ctx) =
     ''http://api:8000/'' @ joined_path (getPathParts ctx) @ url_search (req_url req) \<and>
   (\<forall>p parts. ctx = Some p \<and> path p = Some parts \<longrightarrow> getPathParts ctx = parts) \<and>
   (\<forall>q. query (req_url req) = Some q \<and> q \<noteq> [] \<longrightarrow> url_search (req_url req) = ''?'' @ q)"
  by (simp add: proxy_request_def proxy_target_def js_join_slash getPathParts_def
      url_search_def)

theorem proxy_target_verbatim_witness:
  "out_target (proxy_request
     \<lparr> req_method = ''DELETE'',
       req_url = \<lparr> origin_and_path = ''http://dash/api/admin/users/7'',
                   query = Some ''force=1&note=a%20b'' \<rparr>,
       req_headers = [], body_bytes = [] \<rparr>
     (Some \<lparr> path = Some [''admin'', ''users'', ''7''] \<rparr>)) =
   ''http://api:8000/admin/users/7?force=1&note=a%20b''"
  using proxy_target_verbatim
    [of "\<lparr> req_method = ''DELETE'',
       req_url = \<lparr> origin_and_path = ''http://dash/api/admin/users/7'',
                   query = Some ''force=1&note=a%20b'' \<rparr>,
       req_headers = [], body_bytes = [] \<rparr>"
      "Some \<lparr> path = Some [''admin'', ''users'', ''7''] \<rparr>"]
  by simp

text \<open>The module's exports: five names, each bound to \<open>proxy\<close>.\<close>

lemma route_exports_table:
  "route_exports m =
     (if m \<in> {''GET'', ''POST'', ''PUT'', ''DELETE'', ''PATCH''} then Some proxy else None)"
  by (simp add: route_exports_def GET_def POST_def PUT_def DELETE_def PATCH_def)

text \<open>
  C7. For each of the methods GET, HEAD, POST, PUT, PATCH and DELETE the routing
  layer finds a handler in the module (for HEAD the exported GET), and that handler
  is \<open>proxy\<close>: it hands the outbound request, of the same method, to \<open>fetch\<close> and
  builds its response from the upstream's.
\<close>

theorem gateway_handles_six_methods:
  assumes "m \<in> {''GET'', ''HEAD'', ''POST'', ''PUT'', ''PATCH'', ''DELETE''}"
  shows "\<exists>h. route_handler m = Some h \<and> h = proxy \<and>
             out_method (proxy_request req ctx) = req_method req \<and>
             h fetch req ctx =
               (case fetch (proxy_request req ctx) of
                  Inl e \<Rightarrow> Inl e
                | Inr upstream \<Rightarrow>
                    new_Response (resp_body upstream) (resp_status upstream)
                      (resp_headers upstream))"
proof -
  from assms have "route_handler m = Some proxy"
    by (auto simp: route_handler_def route_exports_table)
  then show ?thesis by (simp add: proxy_def proxy_request_def)
qed

theorem gateway_handles_six_methods_witness:
  "route_handler ''HEAD'' = Some proxy \<and> route_handler ''DELETE'' = Some proxy \<and>
   proxy (\<lambda>out. if out_method out = ''HEAD'' \<and> out_body out = None
           then Inr \<lparr> resp_status = 200, resp_headers = [], resp_body = None \<rparr>
           else Inl None)
     \<lparr> req_method = ''HEAD'',
       req_url = \<lparr> origin_and_path = ''http://dash/api/scans'', query = None \<rparr>,
       req_headers = [], body_bytes = [] \<rparr> None =
     Inr \<lparr> resp_status = 200, resp_headers = [], resp_body = None \<rparr>"
proof -
  from gateway_handles_six_methods [of "''HEAD''" "\<lparr> req_method = ''HEAD'',
       req_url = \<lparr> origin_and_path = ''http://dash/api/scans'', query = None \<rparr>,
       req_headers = [], body_bytes = [] \<rparr>" None
      "\<lambda>out. if out_method out = ''HEAD'' \<and> out_body out = None
           then Inr \<lparr> resp_status = 200, resp_headers = [], resp_body = None \<rparr>
           else Inl None"]
  have head: "route_handler ''HEAD'' = Some proxy"
    and relay: "proxy (\<lambda>out. if out_method out = ''HEAD'' \<and> out_body out = None
           then Inr \<lparr> resp_status = 200, resp_headers = [], resp_body = None \<rparr>
           else Inl None)
     \<lparr> req_method = ''HEAD'',
       req_url = \<lparr> origin_and_path = ''http://dash/api/scans'', query = None \<rparr>,
       req_headers = [], body_bytes = [] \<rparr> None =
     Inr \<lparr> resp_status = 200, resp_headers = [], resp_body = None \<rparr>"
    by (auto simp: proxy_request_def proxy_body_def new_Response_def)
  from gateway_handles_six_methods [of "''DELETE''"]
  have "route_handler ''DELETE'' = Some proxy" by auto
  with head relay show ?thesis by (intro conjI)
qed

text \<open>
  C10. When the route context has no parameters, no \<open>path\<close>, or an empty \<open>path\<close>, the
  segment list is empty and the handler does not fail on it: it hands to \<open>fetch\<close> the
  request for the root path of the upstream followed by the query string, with the
  inbound method, the rewritten headers and the body, and when the upstream answers
  with a response that can be relayed, the handler returns it.
\<close>

theorem proxy_empty_path:
  assumes "ctx = None \<or> ctx = Some \<lparr> path = None \<rparr> \<or> ctx = Some \<lparr> path = Some [] \<rparr>"
  shows "getPathParts ctx = [] \<and>
         proxy_request req ctx =
           \<lparr> out_target = ''http://api:8000/'' @ url_search (req_url req),
             out_method = req_method req,
             out_headers = proxy_headers (req_headers req),
             out_body = proxy_body req \<rparr> \<and>
         proxy fetch req ctx =
           (case fetch \<lparr> out_target = ''http://api:8000/'' @ url_search (req_url req),
                         out_method = req_method req,
                         out_headers = proxy_headers (req_headers req),
                         out_body = proxy_body req \<rparr> of
              Inl e \<Rightarrow> Inl e
            | Inr upstream \<Rightarrow>
                new_Response (resp_body upstream) (resp_status upstream)
                  (resp_headers upstream)) \<and>
         (\<forall>upstream.
            fetch \<lparr> out_target = ''http://api:8000/'' @ url_search (req_url req),
                    out_method = req_method req,
                    out_headers = proxy_headers (req_headers req),
                    out_body = proxy_body req \<rparr> = Inr upstream \<and> relayable upstream \<longrightarrow>
            proxy fetch req ctx = Inr upstream)"
proof -
  from assms have parts: "getPathParts ctx = []"
    by (auto simp: getPathParts_def)
  then have target: "proxy_target req ctx = ''http://api:8000/'' @ url_search (req_url req)"
    by (simp add: proxy_target_def)
  from parts target show ?thesis
    by (simp add: proxy_unfolded proxy_request_def new_Response_relayable)
qed

theorem proxy_empty_path_witness:
  "getPathParts (Some \<lparr> path = None \<rparr>) = [] \<and>
   out_target (proxy_request
     \<lparr> req_method = ''GET'',
       req_url = \<lparr> origin_and_path = ''http://dash/api'', query = Some ''limit=5'' \<rparr>,
       req_headers = [], body_bytes = [] \<rparr> (Some \<lparr> path = None \<rparr>)) =
   ''http://api:8000/?limit=5'' \<and>
   proxy (\<lambda>out. if out_target out = ''http://api:8000/?limit=5'' \<and> out_method out = ''GET''
           then Inr \<lparr> resp_status = 200, resp_headers = [], resp_body = Some [91, 93] \<rparr>
           else Inl None)
     \<lparr> req_method = ''GET'',
       req_url = \<lparr> origin_and_path = ''http://dash/api'', query = Some ''limit=5'' \<rparr>,
       req_headers = [], body_bytes = [] \<rparr> (Some \<lparr> path = None \<rparr>) =
   Inr \<lparr> resp_status = 200, resp_headers = [], resp_body = Some [91, 93] \<rparr>"
proof -
  have c: "Some \<lparr> path = None \<rparr> = None \<or> Some \<lparr> path = None \<rparr> = Some \<lparr> path = None \<rparr> \<or>
           Some \<lparr> path = None \<rparr> = Some \<lparr> path = Some [] \<rparr>"
    by simp
  from proxy_empty_path [OF c, of
      "\<lparr> req_method = ''GET'',
       req_url = \<lparr> origin_and_path = ''http://dash/api'', query = Some ''limit=5'' \<rparr>,
       req_headers = [], body_bytes = [] \<rparr>"
      "\<lambda>out. if out_target out = ''http://api:8000/?limit=5'' \<and> out_method out = ''GET''
           then Inr \<lparr> resp_status = 200, resp_headers = [], resp_body = Some [91, 93] \<rparr>
           else Inl None"]
  show ?thesis
    by (simp add: url_search_def proxy_body_def new_Response_def null_body_status_def)
qed

section \<open>Properties of the orchestrator\<close>

subsection \<open>Runs\<close>

lemma exec_Nil: "exec [] s = s"
  by (simp add: exec_def)

lemma exec_Cons: "exec (e # es) s = exec es (step e s)"
  by (simp add: exec_def)

lemma exec_append: "exec (es @ es') s = exec es' (exec es s)"
  by (simp add: exec_def)

lemma exec_snoc: "exec (es @ [e]) s = step e (exec es s)"
  by (simp add: exec_def)

text \<open>Once the token is false, no event writes a block or the flag.\<close>

lemma step_dead:
  "\<not> alive s \<Longrightarrow>
   \<not> alive (step e s) \<and> blocks (step e s) = blocks s \<and> loadingAll (step e s) = loadingAll s"
  by (cases e) (simp_all add: Let_def)

lemma exec_dead:
  "\<not> alive s \<Longrightarrow>
   \<not> alive (exec es s) \<and> blocks (exec es s) = blocks s \<and> loadingAll (exec es s) = loadingAll s"
proof (induction es arbitrary: s)
  case Nil
  then show ?case by (simp add: exec_Nil)
next
  case (Cons e es)
  from step_dead [OF Cons.prems, of e]
  have d: "\<not> alive (step e s)"
    and b: "blocks (step e s) = blocks s"
    and l: "loadingAll (step e s) = loadingAll s"
    by simp_all
  from Cons.IH [OF d] b l show ?case by (simp add: exec_Cons)
qed

lemma exec_after_cleanup:
  "blocks (exec (es @ Cleanup # es') s) = blocks (exec es s) \<and>
   loadingAll (exec (es @ Cleanup # es') s) = loadingAll (exec es s)"
  using exec_dead [of "step Cleanup (exec es s)" es']
  by (simp add: exec_append exec_Cons)

lemma wrap_result_settled: "\<not> loading (wrap_result outcome)"
  by (simp add: wrap_result_def split: sum.split)

lemma phase_of_settled: "\<not> loading b \<longleftrightarrow> phase_of b = Loaded \<or> phase_of b = Failed"
  by (simp add: phase_of_def)

lemma run_inv_start: "run_inv (start paths)"
  by (simp add: run_inv_def start_def)

lemma run_inv_step:
  assumes inv: "run_inv s"
  shows "run_inv (step e s)"
proof (cases e)
  case (Settle i outcome)
  show ?thesis
  proof (cases "i < length (waiting s) \<and> waiting s ! i")
    case False
    with inv Settle show ?thesis by auto
  next
    case True
    with inv have "loadingAll s" by (auto simp: run_inv_def)
    with inv True Settle show ?thesis
      by (auto simp: run_inv_def Let_def nth_list_update wrap_result_settled)
  qed
next
  case AllSettled
  with inv show ?thesis
    by (auto simp: run_inv_def Let_def list_all_length)
next
  case Cleanup
  with inv show ?thesis by (auto simp: run_inv_def)
qed

lemma run_inv_exec: "run_inv s \<Longrightarrow> run_inv (exec es s)"
  by (induction es arbitrary: s) (simp_all add: exec_Nil exec_Cons run_inv_step)

lemma length_waiting_step: "length (waiting (step e s)) = length (waiting s)"
  by (cases e) (simp_all add: Let_def)

lemma length_waiting_exec: "length (waiting (exec es s)) = length (waiting s)"
  by (induction es arbitrary: s) (simp_all add: exec_Nil exec_Cons length_waiting_step)

lemma length_run:
  "length (waiting (exec es (start paths))) = length paths \<and>
   length (blocks (exec es (start paths))) = length paths"
  using run_inv_exec [OF run_inv_start, of es paths]
  by (simp add: run_inv_def length_waiting_exec) (simp add: start_def)

lemma flag_false_all_settled:
  assumes "\<not> loadingAll (exec es (start paths))"
  shows "list_all (\<lambda>w. \<not> w) (waiting (exec es (start paths))) \<and>
         list_all (\<lambda>b. phase_of b = Loaded \<or> phase_of b = Failed)
           (blocks (exec es (start paths)))"
  using run_inv_exec [OF run_inv_start, of es paths] assms
  by (simp add: run_inv_def list_all_length phase_of_settled [symmetric])

text \<open>No event issues a request: what \<open>run\<close> requested at the start is all it requests.\<close>

lemma requests_step: "requests (step e s) = requests s"
  by (cases e) (simp_all add: Let_def)

lemma requests_exec: "requests (exec es (start paths)) = map apiFetch_url paths"
proof (induction es rule: rev_induct)
  case Nil
  show ?case by (simp add: exec_Nil start_def)
next
  case (snoc e es)
  then show ?case by (simp add: exec_snoc requests_step)
qed

text \<open>A settlement leaves the blocks of the other resources as they are.\<close>

lemma step_sibling:
  "j \<noteq> i \<Longrightarrow> blocks (step (Settle i outcome) s) ! j = blocks s ! j"
  by (simp add: Let_def)

lemma step_settle_live:
  "alive s \<Longrightarrow> i < length (waiting s) \<Longrightarrow> waiting s ! i \<Longrightarrow>
   length (blocks s) = length (waiting s) \<Longrightarrow>
   blocks (step (Settle i outcome) s) ! i = wrap_result outcome"
  by (simp add: Let_def)

lemma step_settle_run:
  assumes "s = exec es (start paths)" and "alive s" and "i < length paths" and "waiting s ! i"
  shows "blocks (step (Settle i outcome) s) ! i = wrap_result outcome"
  using assms length_run [of es paths] by (simp add: step_settle_live)

text \<open>Without cleanup, the flag goes down once every resource has settled.\<close>

lemma settles_snoc: "settles j (es @ [e]) = (settles j es \<or> is_settle j e)"
  by (simp add: settles_def)

lemma step_settle_keeps:
  "alive (step (Settle i outcome) s) = alive s \<and>
   finished (step (Settle i outcome) s) = finished s \<and>
   loadingAll (step (Settle i outcome) s) = loadingAll s"
  by (simp add: Let_def)

lemma step_settle_waiting:
  "j < length (waiting s) \<Longrightarrow>
   waiting (step (Settle i outcome) s) ! j = (waiting s ! j \<and> j \<noteq> i)"
  by (auto simp: Let_def nth_list_update)

lemma exec_settles:
  "undisturbed es \<Longrightarrow>
   alive (exec es s) = alive s \<and> finished (exec es s) = finished s \<and>
   (\<forall>j < length (waiting s). waiting (exec es s) ! j = (waiting s ! j \<and> \<not> settles j es))"
proof (induction es rule: rev_induct)
  case Nil
  show ?case by (simp add: exec_Nil settles_def)
next
  case (snoc e es)
  then have u: "undisturbed es" and e: "e \<noteq> Cleanup" "e \<noteq> AllSettled"
    by (auto simp: undisturbed_def)
  from e obtain i outcome where s: "e = Settle i outcome" by (cases e) auto
  from snoc.IH [OF u] show ?case
    unfolding exec_snoc s settles_snoc
    using step_settle_keeps [of i outcome "exec es s"]
      step_settle_waiting [of _ "exec es s" i outcome]
    by (auto simp: length_waiting_exec)
qed

lemma all_settled_signals:
  assumes "undisturbed es" and "\<forall>i < length paths. settles i es"
  shows "\<not> loadingAll (exec (es @ [AllSettled]) (start paths))"
proof -
  let ?s = "exec es (start paths)"
  from exec_settles [OF assms(1), of "start paths"]
  have a: "alive ?s" and f: "\<not> finished ?s"
    and w: "\<forall>j < length paths. waiting ?s ! j = (\<not> settles j es)"
    by (simp_all add: start_def)
  from w assms(2) length_run [of es paths] have "list_all Not (waiting ?s)"
    by (simp add: list_all_length)
  with a f show ?thesis by (simp add: exec_snoc Let_def)
qed

subsection \<open>The error detail of a response\<close>

lemma digit_not_ws: "d < 10 \<Longrightarrow> \<not> is_ws (digit_char d)"
  by (simp add: is_ws_def digit_char_def)

lemma show_nat_digits: "show_nat n \<noteq> [] \<and> (\<forall>c \<in> set (show_nat n). \<not> is_ws c)"
proof (induction n rule: show_nat.induct)
  case (1 n)
  show ?case
  proof (cases "n < 10")
    case True
    then show ?thesis by (simp add: show_nat.simps [of n] digit_not_ws)
  next
    case False
    with 1 show ?thesis by (simp add: show_nat.simps [of n] digit_not_ws)
  qed
qed

lemma dropWhile_solid:
  assumes "d \<noteq> []" and "\<forall>c \<in> set d. \<not> is_ws c"
  shows "dropWhile is_ws (d @ r) = d @ r"
  using assms by (cases d) auto

text \<open>Trimming keeps a leading run of characters that are not white space.\<close>

lemma trim_solid_prefix:
  assumes "d \<noteq> []" and "\<forall>c \<in> set d. \<not> is_ws c"
  shows "trim (d @ r) = d @ trim_end r"
proof -
  have front: "dropWhile is_ws (d @ r) = d @ r"
    using assms by (rule dropWhile_solid)
  have rear: "dropWhile is_ws (rev d) = rev d"
    using dropWhile_solid [of "rev d" "[]"] assms by simp
  have "trim (d @ r) = rev (dropWhile is_ws (rev r @ rev d))"
    by (simp only: trim_def trim_start_def trim_end_def front rev_append)
  also have "\<dots> = d @ trim_end r"
  proof (cases "\<forall>c \<in> set r. is_ws c")
    case True
    then have "dropWhile is_ws (rev r @ rev d) = rev d"
      by (simp add: dropWhile_append rear)
    moreover from True have "trim_end r = []" by (simp add: trim_end_def)
    ultimately show ?thesis by simp
  next
    case False
    then have "dropWhile is_ws (rev r @ rev d) = dropWhile is_ws (rev r) @ rev d"
      by (auto simp: dropWhile_append)
    then show ?thesis by (simp add: trim_end_def)
  qed
  finally show ?thesis .
qed

lemma status_detail: "trim (show_nat n @ r) = show_nat n @ trim_end r"
  using show_nat_digits [of n] by (simp add: trim_solid_prefix)

lemma wrap_result_status_error:
  "\<not> ok res \<Longrightarrow>
   wrap_result (Responded res) =
     \<lparr> loading = False, items = JArr [],
       error = Some (trim (show_nat (status res) @ '' '' @ statusText res @ '' '' @
                           text_or_empty res)) \<rparr>"
  using show_nat_digits [of "status res"]
  by (simp add: wrap_result_def loadBlock_def Let_def message_or_def status_detail)

subsection \<open>The body of a success response\<close>

lemma wrap_result_not_json:
  "ok res \<Longrightarrow> json_result res = Inl e \<Longrightarrow>
   wrap_result (Responded res) =
     \<lparr> loading = False, items = JArr [], error = Some (message_or e ''Error'') \<rparr>"
  by (simp add: wrap_result_def loadBlock_def)

lemma wrap_result_null:
  "ok res \<Longrightarrow> json_result res = Inr JNull \<Longrightarrow>
   phase_of (wrap_result (Responded res)) = Failed"
  by (simp add: wrap_result_def loadBlock_def phase_of_def)

lemma wrap_result_no_items:
  assumes "ok res" and "json_result res = Inr data" and "data \<noteq> JNull"
    and "\<forall>v. get_prop ''items'' data = Inr (Some v) \<longrightarrow> \<not> truthy v"
  shows "wrap_result (Responded res) = \<lparr> loading = False, items = JArr [], error = None \<rparr>"
proof -
  from assms(3) obtain p where p: "get_prop ''items'' data = Inr p"
    by (cases data) simp_all
  with assms(4) have "p = None \<or> (\<exists>v. p = Some v \<and> \<not> truthy v)"
    by (cases p) simp_all
  with p assms(1,2) show ?thesis
    by (auto simp: wrap_result_def loadBlock_def)
qed

subsection \<open>The overview page\<close>

lemma load_exec_Nil: "load_exec Number [] s = s"
  by (simp add: load_exec_def)

lemma load_exec_Cons: "load_exec Number (e # es) s = load_exec Number es (load_step Number e s)"
  by (simp add: load_exec_def)

lemma finally_load_quiet:
  "cancelled s \<Longrightarrow> load_quiet (finally_load s) \<and> shown (finally_load s) = shown s"
  by (simp add: load_quiet_def finally_load_def shown_def)

lemma catch_load_quiet:
  "cancelled s \<Longrightarrow> load_quiet (catch_load e s) \<and> shown (catch_load e s) = shown s"
  by (simp add: catch_load_def finally_load_quiet)

lemma load_step_quiet:
  assumes "load_quiet s"
  shows "load_quiet (load_step Number e s) \<and> shown (load_step Number e s) = shown s"
proof (cases e)
  case (FetchesSettle r)
  from assms have c: "cancelled s" by (simp add: load_quiet_def)
  show ?thesis
  proof (cases "load_phase s = AwaitFetches")
    case True
    show ?thesis
    proof (cases r)
      case (Inl x)
      with True FetchesSettle catch_load_quiet [OF c, of x] show ?thesis by simp
    next
      case (Inr rs)
      with True FetchesSettle c finally_load_quiet [OF c] show ?thesis
        by (simp split: prod.split)
    qed
  next
    case False
    with assms FetchesSettle show ?thesis by (simp add: load_quiet_def)
  qed
next
  case JsonSettle
  with assms show ?thesis by (auto simp: load_quiet_def)
next
  case LoadCleanup
  with assms show ?thesis by (auto simp: load_quiet_def shown_def)
qed

lemma load_exec_quiet:
  "load_quiet s \<Longrightarrow> shown (load_exec Number es s) = shown s"
proof (induction es arbitrary: s)
  case Nil
  show ?case by (simp add: load_exec_Nil)
next
  case (Cons e es)
  from load_step_quiet [OF Cons.prems, of Number e] Cons.IH [of "load_step Number e s"]
  show ?case by (simp add: load_exec_Cons)
qed

lemma load_step_before_fetches:
  "\<not> fetches_event e \<Longrightarrow> load_phase s = AwaitFetches \<Longrightarrow>
   load_phase (load_step Number e s) = AwaitFetches \<and> shown (load_step Number e s) = shown s"
  by (cases e) (simp_all add: shown_def)

lemma load_exec_before_fetches:
  "list_all (\<lambda>e. \<not> fetches_event e) es \<Longrightarrow> load_phase s = AwaitFetches \<Longrightarrow>
   load_phase (load_exec Number es s) = AwaitFetches \<and> shown (load_exec Number es s) = shown s"
proof (induction es arbitrary: s)
  case Nil
  then show ?case by (simp add: load_exec_Nil)
next
  case (Cons e es)
  from Cons.prems have e: "\<not> fetches_event e" and es: "list_all (\<lambda>e. \<not> fetches_event e) es"
    by simp_all
  from load_step_before_fetches [OF e Cons.prems(2), of Number]
  have p: "load_phase (load_step Number e s) = AwaitFetches"
    and sh: "shown (load_step Number e s) = shown s"
    by simp_all
  from Cons.IH [OF es p] sh show ?case by (simp add: load_exec_Cons)
qed

lemma load_exec_append:
  "load_exec Number (es @ es') s = load_exec Number es' (load_exec Number es s)"
  by (simp add: load_exec_def)

lemma load_cancelled_before_fetches:
  assumes "list_all (\<lambda>e. \<not> fetches_event e) es"
  shows "shown (load_exec Number (es @ LoadCleanup # es') load_start) = shown load_start"
proof -
  let ?s = "load_exec Number es load_start"
  from load_exec_before_fetches [OF assms, of load_start Number]
  have p: "load_phase ?s = AwaitFetches" and sh: "shown ?s = shown load_start"
    by (simp_all add: load_start_def)
  from p have q: "load_quiet (load_step Number LoadCleanup ?s)"
    by (simp add: load_quiet_def)
  have "shown (load_step Number LoadCleanup ?s) = shown ?s"
    by (simp add: shown_def)
  with load_exec_quiet [OF q, of Number es'] sh show ?thesis
    by (simp add: load_exec_append load_exec_Cons)
qed

subsection \<open>The two responses, evaluated\<close>

lemma wrap_result_x:
  "wrap_result (Responded response_x) =
     \<lparr> loading = False, items = JArr [JObj [(''n'', JNum 1)]], error = None \<rparr>"
  by (simp add: wrap_result_def loadBlock_def response_x_def ok_def)

lemma show_nat_500: "show_nat 500 = ''500''"
  by code_simp

lemma trim_end_y: "trim_end '' Internal Server Error boom'' = '' Internal Server Error boom''"
  by code_simp

lemma not_ok_y: "\<not> ok response_y"
  by (simp add: ok_def response_y_def)

lemma wrap_result_y:
  "wrap_result (Responded response_y) =
     \<lparr> loading = False, items = JArr [], error = Some ''500 Internal Server Error boom'' \<rparr>"
  using status_detail [of 500 "'' Internal Server Error boom''"]
  by (simp add: wrap_result_status_error [OF not_ok_y])
     (simp add: response_y_def text_or_empty_def show_nat_500 trim_end_y)

subsection \<open>The claims about the orchestrator\<close>

text \<open>
  On the analysis page, whatever happened before the cleanup of a run, no event
  after it changes a block state or the flag \<open>loadingAll\<close>: a request that settles
  afterwards, with a response or with an error, is dropped. On the overview page
  the same holds when the cleanup comes before the two requests are answered.
\<close>

lemma cleanup_discards:
  "blocks (exec (es @ Cleanup # es') (start paths)) = blocks (exec es (start paths)) \<and>
   loadingAll (exec (es @ Cleanup # es') (start paths)) = loadingAll (exec es (start paths)) \<and>
   (list_all (\<lambda>e. \<not> fetches_event e) ls \<longrightarrow>
      shown (load_exec Number (ls @ LoadCleanup # ls') load_start) = shown load_start)"
  by (simp add: exec_after_cleanup load_cancelled_before_fetches)

lemma cleanup_discards_on_page:
  "blocks (exec [Settle 1 (Responded response_y), Cleanup, Settle 0 (Responded response_x),
                 AllSettled] (start [''/x'', ''/y''])) =
     [pending_block,
      \<lparr> loading = False, items = JArr [], error = Some ''500 Internal Server Error boom'' \<rparr>] \<and>
   loadingAll (exec [Settle 1 (Responded response_y), Cleanup, Settle 0 (Responded response_x),
                     AllSettled] (start [''/x'', ''/y''])) \<and>
   blocks (exec [Cleanup, Settle 7 (Rejected (Some ''Failed to fetch'')),
                 Settle 0 (Responded response_x)] (start analysis_paths)) =
     replicate 8 pending_block"
  using cleanup_discards
    [of "[Settle 1 (Responded response_y)]" "[Settle 0 (Responded response_x), AllSettled]"
        "[''/x'', ''/y'']"]
    cleanup_discards
    [of "[]" "[Settle 7 (Rejected (Some ''Failed to fetch'')), Settle 0 (Responded response_x)]"
        analysis_paths]
  by (simp add: exec_def start_def wrap_result_y analysis_paths_def eval_nat_numeral)

text \<open>
  C1. A run that is cancelled before its resources have settled is to update no
  state afterwards. On the overview page this fails for a cleanup that comes after
  the two requests are answered and before their bodies are parsed: \<open>load\<close> reads
  \<open>cancelled\<close> once, in front of \<open>kpiRes.json()\<close>, and not again behind it. With both
  requests answered 200, at the cleanup nothing has been written yet and
  \<open>cancelled\<close> is true; the parse of the first body then writes \<open>kpis\<close>, and the
  parse of the second writes \<open>items\<close> and \<open>comparisonCnt\<close>. Only \<open>loading\<close>, which
  the \<open>finally\<close> block guards again, stays as it was.
\<close>

theorem load_writes_after_cleanup:
  "cancelled (load_exec Number [FetchesSettle (Inr (response_x, response_x)), LoadCleanup] load_start) \<and>
   shown (load_exec Number [FetchesSettle (Inr (response_x, response_x)), LoadCleanup] load_start) =
     (True, [], JNull, JArr [], Finite 0) \<and>
   shown (load_exec Number [FetchesSettle (Inr (response_x, response_x)), LoadCleanup, JsonSettle] load_start) =
     (True, [], JObj [(''items'', JArr [JObj [(''n'', JNum 1)]])], JArr [], Finite 0) \<and>
   shown (load_exec Number [FetchesSettle (Inr (response_x, response_x)), LoadCleanup, JsonSettle, JsonSettle] load_start) =
     (True, [], JObj [(''items'', JArr [JObj [(''n'', JNum 1)]])],
      JArr [JObj [(''n'', JNum 1)]], Number (JNum 0))"
  by (simp add: load_exec_def load_start_def shown_def response_x_def ok_def
      after_kpi_def finally_load_def)

text \<open>
  C2. In every state of a run, the flag \<open>loadingAll\<close> is false only if no \<open>wrap\<close> waits
  any more and every block is Loaded or Failed. When every resource has settled,
  with whatever outcome and in whatever order, and the run was not cancelled, the
  continuation behind \<open>Promise.all\<close> sets the flag to false. A settlement of
  resource \<open>i\<close> leaves the block of every other resource as it was.
\<close>

theorem aggregate_after_all_settled:
  "(\<not> loadingAll (exec es (start paths)) \<longrightarrow>
      list_all (\<lambda>w. \<not> w) (waiting (exec es (start paths))) \<and>
      list_all (\<lambda>b. phase_of b = Loaded \<or> phase_of b = Failed)
        (blocks (exec es (start paths)))) \<and>
   (undisturbed es \<and> (\<forall>i < length paths. settles i es) \<longrightarrow>
      \<not> loadingAll (exec (es @ [AllSettled]) (start paths))) \<and>
   (\<forall>j. j \<noteq> i \<longrightarrow> blocks (step (Settle i outcome) s) ! j = blocks s ! j)"
proof (intro conjI impI allI)
  assume "\<not> loadingAll (exec es (start paths))"
  then show "list_all (\<lambda>w. \<not> w) (waiting (exec es (start paths)))"
    and "list_all (\<lambda>b. phase_of b = Loaded \<or> phase_of b = Failed)
           (blocks (exec es (start paths)))"
    using flag_false_all_settled [of es paths] by blast+
next
  assume "undisturbed es \<and> (\<forall>i < length paths. settles i es)"
  then show "\<not> loadingAll (exec (es @ [AllSettled]) (start paths))"
    using all_settled_signals [of es paths] by blast
next
  fix j
  assume "j \<noteq> i"
  then show "blocks (step (Settle i outcome) s) ! j = blocks s ! j"
    by (rule step_sibling)
qed

theorem aggregate_after_all_settled_witness:
  "undisturbed [Settle 1 (Responded response_y), Settle 0 (Responded response_x)] \<and>
   settles 0 [Settle 1 (Responded response_y), Settle 0 (Responded response_x)] \<and>
   settles 1 [Settle 1 (Responded response_y), Settle 0 (Responded response_x)] \<and>
   loadingAll (exec [Settle 1 (Responded response_y)] (start [''/x'', ''/y''])) \<and>
   blocks (exec [Settle 1 (Responded response_y)] (start [''/x'', ''/y''])) =
     [pending_block,
      \<lparr> loading = False, items = JArr [], error = Some ''500 Internal Server Error boom'' \<rparr>] \<and>
   \<not> loadingAll (exec ([Settle 1 (Responded response_y), Settle 0 (Responded response_x)] @
                       [AllSettled]) (start [''/x'', ''/y''])) \<and>
   list_all (\<lambda>b. phase_of b = Loaded \<or> phase_of b = Failed)
     (blocks (exec ([Settle 1 (Responded response_y), Settle 0 (Responded response_x)] @
                    [AllSettled]) (start [''/x'', ''/y'']))) \<and>
   blocks (exec ([Settle 1 (Responded response_y), Settle 0 (Responded response_x)] @
                 [AllSettled]) (start [''/x'', ''/y''])) =
     [\<lparr> loading = False, items = JArr [JObj [(''n'', JNum 1)]], error = None \<rparr>,
      \<lparr> loading = False, items = JArr [], error = Some ''500 Internal Server Error boom'' \<rparr>]"
proof -
  let ?es = "[Settle 1 (Responded response_y), Settle 0 (Responded response_x)]"
  let ?paths = "[''/x'', ''/y'']"
  have u: "undisturbed ?es"
    by (simp add: undisturbed_def)
  have a: "\<forall>i < length ?paths. settles i ?es"
    by (simp add: settles_def less_Suc_eq)
  from aggregate_after_all_settled [of ?es ?paths] u a
  have down: "\<not> loadingAll (exec (?es @ [AllSettled]) (start ?paths))"
    by blast
  with aggregate_after_all_settled [of "?es @ [AllSettled]" ?paths]
  have terminal: "list_all (\<lambda>b. phase_of b = Loaded \<or> phase_of b = Failed)
                    (blocks (exec (?es @ [AllSettled]) (start ?paths)))"
    by blast
  have rest: "loadingAll (exec [Settle 1 (Responded response_y)] (start ?paths)) \<and>
     blocks (exec [Settle 1 (Responded response_y)] (start ?paths)) =
       [pending_block,
        \<lparr> loading = False, items = JArr [], error = Some ''500 Internal Server Error boom'' \<rparr>] \<and>
     blocks (exec (?es @ [AllSettled]) (start ?paths)) =
       [\<lparr> loading = False, items = JArr [JObj [(''n'', JNum 1)]], error = None \<rparr>,
        \<lparr> loading = False, items = JArr [], error = Some ''500 Internal Server Error boom'' \<rparr>]"
    by (simp add: exec_def start_def Let_def wrap_result_x wrap_result_y)
  from a have "settles 0 ?es" and "settles 1 ?es" by simp_all
  with u down terminal rest show ?thesis by (intro conjI) simp_all
qed

text \<open>
  C8. In a run that has not been cancelled, when the request of resource \<open>i\<close> is
  answered with a status outside 200 to 299, the block of resource \<open>i\<close> becomes
  Failed with no items, and its error is the trimmed text made of the status code,
  a space, the status text, a space and the body text (empty when the body cannot
  be read): the digits of the status code, followed by the rest without its trailing
  white space. The blocks of the other resources stay as they were.
\<close>

theorem non_success_fails_resource:
  assumes "s = exec es (start paths)" and "alive s" and "i < length paths"
    and "waiting s ! i" and "\<not> ok res"
  shows "blocks (step (Settle i (Responded res)) s) ! i =
           \<lparr> loading = False, items = JArr [],
             error = Some (trim (show_nat (status res) @ '' '' @ statusText res @ '' '' @
                                 text_or_empty res)) \<rparr> \<and>
         phase_of (blocks (step (Settle i (Responded res)) s) ! i) = Failed \<and>
         trim (show_nat (status res) @ '' '' @ statusText res @ '' '' @ text_or_empty res) =
           show_nat (status res) @ trim_end ('' '' @ statusText res @ '' '' @ text_or_empty res) \<and>
         (\<forall>j. j \<noteq> i \<longrightarrow> blocks (step (Settle i (Responded res)) s) ! j = blocks s ! j)"
proof -
  let ?detail = "trim (show_nat (status res) @ '' '' @ statusText res @ '' '' @ text_or_empty res)"
  let ?b = "blocks (step (Settle i (Responded res)) s) ! i"
  from assms(1-4) have "?b = wrap_result (Responded res)"
    by (rule step_settle_run)
  with wrap_result_status_error [OF assms(5)]
  have written: "?b = \<lparr> loading = False, items = JArr [], error = Some ?detail \<rparr>"
    by (simp only:)
  have failed: "phase_of ?b = Failed"
    unfolding written by (simp add: phase_of_def)
  have detail: "?detail =
      show_nat (status res) @ trim_end ('' '' @ statusText res @ '' '' @ text_or_empty res)"
    by (rule status_detail)
  have siblings: "\<forall>j. j \<noteq> i \<longrightarrow> blocks (step (Settle i (Responded res)) s) ! j = blocks s ! j"
    by (blast intro: step_sibling)
  from written failed detail siblings show ?thesis by (intro conjI)
qed

theorem non_success_fails_resource_witness:
  "alive (exec [] (start [''/x'', ''/y''])) \<and>
   waiting (exec [] (start [''/x'', ''/y''])) ! 1 \<and>
   \<not> ok response_y \<and>
   blocks (step (Settle 1 (Responded response_y)) (exec [] (start [''/x'', ''/y'']))) ! 1 =
     \<lparr> loading = False, items = JArr [], error = Some ''500 Internal Server Error boom'' \<rparr> \<and>
   blocks (step (Settle 1 (Responded response_y)) (exec [] (start [''/x'', ''/y'']))) ! 0 =
     pending_block"
proof -
  have live: "alive (exec [] (start [''/x'', ''/y'']))"
    and waits: "waiting (exec [] (start [''/x'', ''/y''])) ! 1"
    by (simp_all add: exec_Nil start_def)
  have detail: "trim (show_nat (status response_y) @ '' '' @ statusText response_y @ '' '' @
                      text_or_empty response_y) = ''500 Internal Server Error boom''"
    using status_detail [of 500 "'' Internal Server Error boom''"]
    by (simp add: response_y_def text_or_empty_def show_nat_500 trim_end_y)
  have before: "blocks (exec [] (start [''/x'', ''/y''])) ! 0 = pending_block"
    by (simp add: exec_Nil start_def)
  from non_success_fails_resource [OF refl live _ waits not_ok_y] detail before
  have "blocks (step (Settle 1 (Responded response_y)) (exec [] (start [''/x'', ''/y'']))) ! 1 =
          \<lparr> loading = False, items = JArr [], error = Some ''500 Internal Server Error boom'' \<rparr>"
    and "blocks (step (Settle 1 (Responded response_y)) (exec [] (start [''/x'', ''/y'']))) ! 0 =
          pending_block"
    by simp_all
  with live waits not_ok_y show ?thesis by (intro conjI)
qed

text \<open>
  C9, as the code has it. In a run that has not been cancelled, when the request of
  resource \<open>i\<close> is answered with a success status: if the body is not JSON, the block
  becomes Failed with the message of the parser's error (\<open>Error\<close> when it has none);
  if the body is the JSON value \<open>null\<close>, the block becomes Failed; if the body is any
  other JSON value without a truthy \<open>items\<close> property, the block becomes Loaded with
  an empty item list.
\<close>

theorem success_body_shapes:
  assumes "s = exec es (start paths)" and "alive s" and "i < length paths"
    and "waiting s ! i" and "ok res"
  shows "(\<forall>e. json_result res = Inl e \<longrightarrow>
            blocks (step (Settle i (Responded res)) s) ! i =
              \<lparr> loading = False, items = JArr [], error = Some (message_or e ''Error'') \<rparr>) \<and>
         (json_result res = Inr JNull \<longrightarrow>
            phase_of (blocks (step (Settle i (Responded res)) s) ! i) = Failed) \<and>
         (\<forall>data. json_result res = Inr data \<and> data \<noteq> JNull \<and>
                 (\<forall>v. get_prop ''items'' data = Inr (Some v) \<longrightarrow> \<not> truthy v) \<longrightarrow>
            blocks (step (Settle i (Responded res)) s) ! i =
              \<lparr> loading = False, items = JArr [], error = None \<rparr>)"
proof -
  from assms(1-4) have "blocks (step (Settle i (Responded res)) s) ! i = wrap_result (Responded res)"
    by (rule step_settle_run)
  with assms(5) show ?thesis
    by (auto simp: wrap_result_not_json wrap_result_null wrap_result_no_items)
qed

theorem success_body_shapes_witness:
  "alive (exec [] (start [''/x''])) \<and> waiting (exec [] (start [''/x''])) ! 0 \<and>
   blocks (step (Settle 0 (Responded
       \<lparr> status = 200, statusText = ''OK'', text_result = Some ''<html>'',
         json_result = Inl (Some ''Unexpected token < in JSON at position 0'') \<rparr>))
     (exec [] (start [''/x'']))) ! 0 =
     \<lparr> loading = False, items = JArr [],
       error = Some ''Unexpected token < in JSON at position 0'' \<rparr> \<and>
   phase_of (blocks (step (Settle 0 (Responded
       \<lparr> status = 200, statusText = ''OK'', text_result = Some ''null'',
         json_result = Inr JNull \<rparr>))
     (exec [] (start [''/x'']))) ! 0) = Failed \<and>
   blocks (step (Settle 0 (Responded
       \<lparr> status = 200, statusText = ''OK'', text_result = Some ''[7]'',
         json_result = Inr (JArr [JNum 7]) \<rparr>))
     (exec [] (start [''/x'']))) ! 0 =
     \<lparr> loading = False, items = JArr [], error = None \<rparr>"
proof -
  have live: "alive (exec [] (start [''/x'']))"
    and waits: "waiting (exec [] (start [''/x''])) ! 0"
    by (simp_all add: exec_Nil start_def)
  note shapes = success_body_shapes [OF refl live _ waits]
  from shapes [where res = "\<lparr> status = 200, statusText = ''OK'', text_result = Some ''<html>'',
         json_result = Inl (Some ''Unexpected token < in JSON at position 0'') \<rparr>"]
  have one: "blocks (step (Settle 0 (Responded
       \<lparr> status = 200, statusText = ''OK'', text_result = Some ''<html>'',
         json_result = Inl (Some ''Unexpected token < in JSON at position 0'') \<rparr>))
     (exec [] (start [''/x'']))) ! 0 =
     \<lparr> loading = False, items = JArr [],
       error = Some ''Unexpected token < in JSON at position 0'' \<rparr>"
    by (simp add: ok_def message_or_def)
  from shapes [where res = "\<lparr> status = 200, statusText = ''OK'', text_result = Some ''null'',
         json_result = Inr JNull \<rparr>"]
  have two: "phase_of (blocks (step (Settle 0 (Responded
       \<lparr> status = 200, statusText = ''OK'', text_result = Some ''null'',
         json_result = Inr JNull \<rparr>))
     (exec [] (start [''/x'']))) ! 0) = Failed"
    by (simp add: ok_def)
  from shapes [where res = "\<lparr> status = 200, statusText = ''OK'', text_result = Some ''[7]'',
         json_result = Inr (JArr [JNum 7]) \<rparr>"]
  have three: "blocks (step (Settle 0 (Responded
       \<lparr> status = 200, statusText = ''OK'', text_result = Some ''[7]'',
         json_result = Inr (JArr [JNum 7]) \<rparr>))
     (exec [] (start [''/x'']))) ! 0 =
     \<lparr> loading = False, items = JArr [], error = None \<rparr>"
    by (simp add: ok_def)
  from live waits one two three show ?thesis by (intro conjI)
qed

text \<open>
  C9, as stated, fails: a success response whose body is the empty JSON object, with
  no sequence of records under \<open>items\<close>, is reported as Loaded with an empty item list.
\<close>

theorem empty_object_reported_loaded:
  "blocks (step (Settle 0 (Responded response_empty_object)) (start [''/x''])) ! 0 =
     \<lparr> loading = False, items = JArr [], error = None \<rparr> \<and>
   phase_of (blocks (step (Settle 0 (Responded response_empty_object)) (start [''/x''])) ! 0) =
     Loaded"
  by (simp add: start_def Let_def wrap_result_def loadBlock_def response_empty_object_def
      ok_def phase_of_def)

end
